theory Spec2Isabelle
  imports Complex_Main
begin

section \<open>JavaScript values\<close>

text \<open>
  The services read their data from JSON (the base files and localStorage), so a field
  holds a JSON value or is missing (\<open>JUndefined\<close>).  Counts, ratings and scores are
  exact reals.  The distance is computed in the arithmetic of doubles, whose rounding
  and whose trigonometric functions are parameters (see \<open>builtins\<close>).  \<open>NaN\<close> is
  modelled by \<open>None\<close> where it arises from a coercion, and by the constructor \<open>NaN\<close>
  of \<open>jsnum\<close> where it is computed.
\<close>

datatype jsval =
    JUndefined
  | JNull
  | JBool bool
  | JNum real
  | JStr string
  | JArr "jsval list"
  | JObj "(string \<times> jsval) list"

text \<open>A computed number: a real or NaN.\<close>

datatype jsnum = Num real | NaN

text \<open>Identifiers are JSON numbers (integers) or strings; \<open>===\<close> on them is equality.\<close>

datatype jsid = IdNum int | IdStr string

text \<open>
  What the language itself provides and the repository only calls: \<open>Number(v)\<close> on a
  string, array or object, the parsing of a date by \<open>new Date(v)\<close> (milliseconds since
  the epoch, \<open>None\<close> for an invalid date), the clock and the ISO rendering of the clock,
  \<open>String(n)\<close> for an integer of magnitude at least \<open>1e21\<close> (exponent notation), and
  the arithmetic of doubles: \<open>fl\<close> rounds the exact result of an operation to a double,
  and \<open>sinD\<close>, \<open>cosD\<close> and \<open>atan2D\<close> are what \<open>Math.sin\<close>, \<open>Math.cos\<close> and
  \<open>Math.atan2\<close> return where the language does not fix the result.
\<close>

record builtins =
  toNumberOther :: "jsval \<Rightarrow> real option"
  parseDate :: "jsval \<Rightarrow> int option"
  now :: int
  nowISO :: string
  largeNumberToString :: "int \<Rightarrow> string"
  fl :: "real \<Rightarrow> real"
  sinD :: "real \<Rightarrow> real"
  cosD :: "real \<Rightarrow> real"
  atan2D :: "real \<Rightarrow> real \<Rightarrow> real"

text \<open>ToBoolean.\<close>

fun truthy :: "jsval \<Rightarrow> bool" where
  "truthy JUndefined = False"
| "truthy JNull = False"
| "truthy (JBool b) = b"
| "truthy (JNum x) = (x \<noteq> 0)"
| "truthy (JStr s) = (s \<noteq> [])"
| "truthy (JArr xs) = True"
| "truthy (JObj kvs) = True"

fun truthy_num :: "jsnum \<Rightarrow> bool" where
  "truthy_num (Num x) = (x \<noteq> 0)"
| "truthy_num NaN = False"

text \<open>\<open>a || b\<close> on values.\<close>

definition js_or :: "jsval \<Rightarrow> jsval \<Rightarrow> jsval" where
  "js_or a b = (if truthy a then a else b)"

text \<open>\<open>Number(v)\<close>; \<open>None\<close> is NaN.\<close>

fun Number_js :: "builtins \<Rightarrow> jsval \<Rightarrow> real option" where
  "Number_js env JUndefined = None"
| "Number_js env JNull = Some 0"
| "Number_js env (JBool b) = Some (if b then 1 else 0)"
| "Number_js env (JNum x) = Some x"
| "Number_js env v = toNumberOther env v"

text \<open>\<open>Number(v) || 0\<close>: NaN and 0 are falsy.\<close>

definition number_or_zero :: "builtins \<Rightarrow> jsval \<Rightarrow> real" where
  "number_or_zero env v =
     (case Number_js env v of None \<Rightarrow> 0 | Some x \<Rightarrow> (if x \<noteq> 0 then x else 0))"

text \<open>
  \<open>String(id)\<close>: a string is itself; an integer below \<open>1e21\<close> in magnitude is written
  in decimal, a larger one as the language writes it.
\<close>

fun dec_nat :: "nat \<Rightarrow> string" where
  "dec_nat n = (if n < 10 then [''0123456789'' ! n]
                else dec_nat (n div 10) @ [''0123456789'' ! (n mod 10)])"

declare dec_nat.simps [simp del]

fun String_js :: "builtins \<Rightarrow> jsid \<Rightarrow> string" where
  "String_js env (IdStr s) = s"
| "String_js env (IdNum n) =
     (if \<bar>n\<bar> < 1000000000000000000000
      then (if n < 0 then CHR ''-'' # dec_nat (nat (- n)) else dec_nat (nat n))
      else largeNumberToString env n)"

text \<open>\<open>Array.prototype.findIndex\<close>; \<open>None\<close> is the source's \<open>-1\<close>.\<close>

fun findIndex :: "('a \<Rightarrow> bool) \<Rightarrow> 'a list \<Rightarrow> nat option" where
  "findIndex P [] = None"
| "findIndex P (x # xs) = (if P x then Some 0 else map_option Suc (findIndex P xs))"

section \<open>Data model\<close>

record business =
  b_id :: jsid
  b_name :: string
  b_category :: string
  b_rating :: "real option"
  b_latitude :: jsnum
  b_longitude :: jsnum
  b_distance :: "jsnum option"

record deal =
  d_id :: jsid
  d_businessId :: jsid
  d_title :: string
  d_startDate :: jsval
  d_endDate :: jsval

record review =
  r_id :: jsid
  r_businessId :: jsid
  r_text :: jsval
  r_rating :: jsval
  r_likes :: jsval
  r_comments :: jsval
  r_image :: jsval
  r_date :: jsval

text \<open>
  localStorage, one field per key the services use; \<open>None\<close> is a key that was never
  written (\<open>getItem\<close> returns null).  A value is kept as the JSON it parses to.
\<close>

record storage =
  businesses_custom :: "business list option"
  businesses_deleted_ids :: "jsid list option"
  deals_custom :: "deal list option"
  deals_deleted_ids :: "jsid list option"
  reviews_custom :: "review list option"
  reviews_deleted_ids :: "jsid list option"
  reviews_hidden :: "jsid list option"
  favorites :: "jsid list option"

text \<open>\<open>JSON.parse(localStorage.getItem(key) || '[]')\<close> and \<open>getLocalData(key)\<close>.\<close>

definition getLocalData :: "'a list option \<Rightarrow> 'a list" where
  "getLocalData v = (case v of None \<Rightarrow> [] | Some xs \<Rightarrow> xs)"

section \<open>businessService and dealsService: loading with the overlay\<close>

text \<open>
  \<open>loadBusinesses\<close>: the fetched base list (\<open>None\<close> when the request fails or is not ok)
  is filtered by the deleted ids, then every custom entry replaces the first entry with
  its id or is pushed.
\<close>

definition loadBusinesses :: "business list option \<Rightarrow> storage \<Rightarrow> business list" where
  "loadBusinesses fetched st =
     (let businesses0 = (case fetched of Some bs \<Rightarrow> bs | None \<Rightarrow> []);
          custom = getLocalData (businesses_custom st);
          deletedIds = getLocalData (businesses_deleted_ids st);
          businesses = filter (\<lambda>b. b_id b \<notin> set deletedIds) businesses0
      in foldl (\<lambda>bs c. case findIndex (\<lambda>b. b_id b = b_id c) bs of
                          Some idx \<Rightarrow> bs[idx := c]
                        | None \<Rightarrow> bs @ [c]) businesses custom)"

text \<open>
  \<open>loadDeals\<close> keeps the base list in the module variable \<open>dealsCache\<close>; the filter
  builds a new array, so the cache stays the unfiltered base list.  The result is the
  visible list and the new cache.
\<close>

definition loadDeals :: "deal list option \<Rightarrow> deal list option \<Rightarrow> storage
    \<Rightarrow> deal list \<times> deal list option" where
  "loadDeals fetched dealsCache st =
     (let deals0 = (case dealsCache of
                      Some c \<Rightarrow> c
                    | None \<Rightarrow> (case fetched of Some ds \<Rightarrow> ds | None \<Rightarrow> []));
          custom = getLocalData (deals_custom st);
          deletedIds = getLocalData (deals_deleted_ids st);
          deals = filter (\<lambda>d. d_id d \<notin> set deletedIds) deals0
      in (foldl (\<lambda>ds c. case findIndex (\<lambda>d. d_id d = d_id c) ds of
                           Some idx \<Rightarrow> ds[idx := c]
                         | None \<Rightarrow> ds @ [c]) deals custom,
          Some deals0))"

section \<open>reviewService\<close>

definition placeholder :: string where
  "placeholder = ''review-placeholder.svg''"

definition isArray :: "jsval \<Rightarrow> bool" where
  "isArray v = (case v of JArr xs \<Rightarrow> True | _ \<Rightarrow> False)"

definition normalizeReview :: "builtins \<Rightarrow> review \<Rightarrow> review" where
  "normalizeReview env review =
     review\<lparr> r_likes := JNum (number_or_zero env (r_likes review)),
             r_comments := (if isArray (r_comments review) then r_comments review else JArr []),
             r_image := js_or (r_image review) (JStr placeholder) \<rparr>"

text \<open>
  \<open>ensureOriginalReviews\<close>: the cached list if there is one (an array is truthy, also
  when empty), else the fetched list normalised, or the empty list when the fetch fails.
  The list it returns is also the new value of \<open>originalReviewsCache\<close>.
\<close>

definition ensureOriginalReviews :: "builtins \<Rightarrow> review list option \<Rightarrow> review list option
    \<Rightarrow> review list" where
  "ensureOriginalReviews env fetched originalReviewsCache =
     (case originalReviewsCache of
        Some c \<Rightarrow> c
      | None \<Rightarrow> (case fetched of Some json \<Rightarrow> map (normalizeReview env) json | None \<Rightarrow> []))"

definition getCustomReviews :: "builtins \<Rightarrow> storage \<Rightarrow> review list" where
  "getCustomReviews env st = map (normalizeReview env) (getLocalData (reviews_custom st))"

text \<open>
  \<open>new Map(custom.map(r => [r.id, r]))\<close>: a later entry with the same key overwrites
  an earlier one, so the lookup finds the last one.
\<close>

definition customById :: "review list \<Rightarrow> jsid \<Rightarrow> review option" where
  "customById custom = map_of (rev (map (\<lambda>r. (r_id r, r)) custom))"

text \<open>\<open>mergeReviews\<close> on the original list that \<open>ensureOriginalReviews\<close> returned.\<close>

definition mergeReviews_on :: "builtins \<Rightarrow> review list \<Rightarrow> storage \<Rightarrow> review list" where
  "mergeReviews_on env original st =
     (let custom = getCustomReviews env st;
          deletedIds = getLocalData (reviews_deleted_ids st);
          merged = map (\<lambda>r. case customById custom (r_id r) of Some c \<Rightarrow> c | None \<Rightarrow> r) original;
          additional = filter (\<lambda>r. \<not> list_ex (\<lambda>orig. r_id orig = r_id r) original) custom
      in filter (\<lambda>r. r_id r \<notin> set deletedIds) (merged @ additional))"

definition mergeReviews :: "builtins \<Rightarrow> review list option \<Rightarrow> review list option \<Rightarrow> storage
    \<Rightarrow> review list" where
  "mergeReviews env fetched originalReviewsCache st =
     mergeReviews_on env (ensureOriginalReviews env fetched originalReviewsCache) st"

section \<open>adminDataService\<close>

definition deleteBusiness :: "jsid \<Rightarrow> storage \<Rightarrow> storage" where
  "deleteBusiness i st =
     (let deletedIds = getLocalData (businesses_deleted_ids st);
          st1 = (if i \<notin> set deletedIds
                 then st\<lparr> businesses_deleted_ids := Some (deletedIds @ [i]) \<rparr>
                 else st);
          custom = getLocalData (businesses_custom st1);
          newCustom = filter (\<lambda>b. b_id b \<noteq> i) custom
      in st1\<lparr> businesses_custom := Some newCustom \<rparr>)"

section \<open>The merge of the specification\<close>

text \<open>
  The visible list as the specification words it: a custom entry replaces the base entry
  with the same id, a custom entry with a new id is appended, and every entry whose id is
  deleted is left out.
\<close>

definition merge_spec :: "('a \<Rightarrow> jsid) \<Rightarrow> 'a list \<Rightarrow> 'a list \<Rightarrow> jsid list \<Rightarrow> 'a list" where
  "merge_spec idf base custom deletedIds =
     filter (\<lambda>e. idf e \<notin> set deletedIds)
       (map (\<lambda>b. case find (\<lambda>c. idf c = idf b) custom of Some c \<Rightarrow> c | None \<Rightarrow> b) base
        @ filter (\<lambda>c. idf c \<notin> idf ` set base) custom)"

text \<open>The body of the \<open>forEach\<close> in \<open>loadBusinesses\<close> and \<open>loadDeals\<close>, for any id field.\<close>

definition overlay_step :: "('a \<Rightarrow> jsid) \<Rightarrow> 'a list \<Rightarrow> 'a \<Rightarrow> 'a list" where
  "overlay_step idf bs c =
     (case findIndex (\<lambda>b. idf b = idf c) bs of
        Some idx \<Rightarrow> bs[idx := c]
      | None \<Rightarrow> bs @ [c])"

section \<open>dateUtils and credibilityService\<close>

definition msPerDay :: int where
  "msPerDay = 1000 * 60 * 60 * 24"

text \<open>\<open>daysSince\<close>: \<open>None\<close> is the NaN an invalid date gives.\<close>

definition daysSince :: "builtins \<Rightarrow> jsval \<Rightarrow> int option" where
  "daysSince env dateInput =
     (case parseDate env dateInput of
        None \<Rightarrow> None
      | Some target \<Rightarrow> Some \<lfloor>real_of_int (now env - target) / real_of_int msPerDay\<rfloor>)"

definition getCommentsCount :: "review \<Rightarrow> real" where
  "getCommentsCount review =
     (case r_comments review of
        JArr xs \<Rightarrow> real (length xs)
      | JNum x \<Rightarrow> x
      | _ \<Rightarrow> 0)"

text \<open>A comparison with NaN is false, so an invalid date falls through to 1.\<close>

definition getRecencyWeight :: "builtins \<Rightarrow> review \<Rightarrow> real" where
  "getRecencyWeight env review =
     (case daysSince env (r_date review) of
        None \<Rightarrow> 1
      | Some days \<Rightarrow> (if days < 7 then 5 else if days < 30 then 3 else 1))"

definition calculateCredibility :: "builtins \<Rightarrow> review \<Rightarrow> real" where
  "calculateCredibility env reviewObj =
     (let likes = number_or_zero env (r_likes reviewObj);
          comments = getCommentsCount reviewObj;
          recencyWeight = getRecencyWeight env reviewObj
      in likes * 2 + comments + recencyWeight)"

text \<open>
  The score as the specification words it: the age of a review in days is the time since
  its date, and the like count is the coerced number, 0 when the coercion gives no number.
\<close>

definition likes_spec :: "builtins \<Rightarrow> review \<Rightarrow> real" where
  "likes_spec env r = (case Number_js env (r_likes r) of Some x \<Rightarrow> x | None \<Rightarrow> 0)"

definition comments_spec :: "review \<Rightarrow> real" where
  "comments_spec r =
     (if isArray (r_comments r) then (case r_comments r of JArr xs \<Rightarrow> real (length xs) | _ \<Rightarrow> 0)
      else (case r_comments r of JNum x \<Rightarrow> x | _ \<Rightarrow> 0))"

definition age_days :: "builtins \<Rightarrow> review \<Rightarrow> real option" where
  "age_days env r =
     (case parseDate env (r_date r) of
        None \<Rightarrow> None
      | Some t \<Rightarrow> Some (real_of_int (now env - t) / 86400000))"

definition recencyBucket_spec :: "builtins \<Rightarrow> review \<Rightarrow> real" where
  "recencyBucket_spec env r =
     (case age_days env r of
        Some a \<Rightarrow> (if a < 7 then 5 else if a < 30 then 3 else 1)
      | None \<Rightarrow> 1)"

section \<open>distanceUtils\<close>

text \<open>
  Arithmetic on doubles.  The exact result of \<open>+\<close>, \<open>-\<close>, \<open>*\<close>, \<open>/\<close> and of the
  square root is rounded by \<open>fl\<close>; 0 and 1 are doubles, so they are not changed.  NaN
  propagates.  Infinities are not modelled: coordinates are finite numbers of degrees.
\<close>

definition round_double :: "builtins \<Rightarrow> real \<Rightarrow> real" where
  "round_double env x = (if x = 0 then 0 else if x = 1 then 1 else fl env x)"

fun num_add :: "builtins \<Rightarrow> jsnum \<Rightarrow> jsnum \<Rightarrow> jsnum" where
  "num_add env (Num x) (Num y) = Num (round_double env (x + y))"
| "num_add env _ _ = NaN"

fun num_sub :: "builtins \<Rightarrow> jsnum \<Rightarrow> jsnum \<Rightarrow> jsnum" where
  "num_sub env (Num x) (Num y) = Num (round_double env (x - y))"
| "num_sub env _ _ = NaN"

fun num_mul :: "builtins \<Rightarrow> jsnum \<Rightarrow> jsnum \<Rightarrow> jsnum" where
  "num_mul env (Num x) (Num y) = Num (round_double env (x * y))"
| "num_mul env _ _ = NaN"

text \<open>
  The source divides by the literals 2 and 180 only; a zero divisor, which gives an
  infinity or NaN, does not occur.
\<close>

fun num_div :: "builtins \<Rightarrow> jsnum \<Rightarrow> jsnum \<Rightarrow> jsnum" where
  "num_div env (Num x) (Num y) = (if y = 0 then NaN else Num (round_double env (x / y)))"
| "num_div env _ _ = NaN"

text \<open>
  The functions of \<open>Math\<close>.  The language fixes \<open>Math.sin(0) = 0\<close>,
  \<open>Math.atan2(0, x) = 0\<close> for \<open>x > 0\<close> and \<open>Math.sqrt(x) = NaN\<close> for \<open>x < 0\<close>; the
  square root is correctly rounded; \<open>Math.PI\<close> is the double next to \<open>pi\<close>.
\<close>

fun Math_sin :: "builtins \<Rightarrow> jsnum \<Rightarrow> jsnum" where
  "Math_sin env (Num x) = Num (if x = 0 then 0 else sinD env x)"
| "Math_sin env NaN = NaN"

fun Math_cos :: "builtins \<Rightarrow> jsnum \<Rightarrow> jsnum" where
  "Math_cos env (Num x) = Num (cosD env x)"
| "Math_cos env NaN = NaN"

fun Math_sqrt :: "builtins \<Rightarrow> jsnum \<Rightarrow> jsnum" where
  "Math_sqrt env (Num x) = (if x < 0 then NaN else Num (round_double env (sqrt x)))"
| "Math_sqrt env NaN = NaN"

fun Math_atan2 :: "builtins \<Rightarrow> jsnum \<Rightarrow> jsnum \<Rightarrow> jsnum" where
  "Math_atan2 env (Num y) (Num x) = Num (if y = 0 \<and> 0 < x then 0 else atan2D env y x)"
| "Math_atan2 env _ _ = NaN"

definition Math_PI :: "builtins \<Rightarrow> jsnum" where
  "Math_PI env = Num (fl env pi)"

definition toRad :: "builtins \<Rightarrow> jsnum \<Rightarrow> jsnum" where
  "toRad env deg = num_mul env deg (num_div env (Math_PI env) (Num 180))"

text \<open>\<open>calculateDistance\<close>; \<open>None\<close> is the omitted unit, defaulting to \<open>'M'\<close>.\<close>

definition calculateDistance :: "builtins \<Rightarrow> jsnum \<Rightarrow> jsnum \<Rightarrow> jsnum \<Rightarrow> jsnum \<Rightarrow> string option
    \<Rightarrow> jsnum" where
  "calculateDistance env lat1 lon1 lat2 lon2 unit0 =
     (let unit = (case unit0 of None \<Rightarrow> ''M'' | Some u \<Rightarrow> u);
          R = Num (if unit = ''K'' then 6371 else 3959);
          dLat = toRad env (num_sub env lat2 lat1);
          dLon = toRad env (num_sub env lon2 lon1);
          a = num_add env
                (num_mul env (Math_sin env (num_div env dLat (Num 2)))
                             (Math_sin env (num_div env dLat (Num 2))))
                (num_mul env
                   (num_mul env
                      (num_mul env (Math_cos env (toRad env lat1)) (Math_cos env (toRad env lat2)))
                      (Math_sin env (num_div env dLon (Num 2))))
                   (Math_sin env (num_div env dLon (Num 2))));
          c = num_mul env (Num 2)
                (Math_atan2 env (Math_sqrt env a) (Math_sqrt env (num_sub env (Num 1) a)))
      in num_mul env R c)"

record location =
  lat :: jsnum
  lng :: jsnum

definition addDistancesToBusinesses :: "builtins \<Rightarrow> business list \<Rightarrow> location option
    \<Rightarrow> string option \<Rightarrow> business list" where
  "addDistancesToBusinesses env businesses userLocation unit0 =
     (case userLocation of
        None \<Rightarrow> businesses
      | Some loc \<Rightarrow>
          map (\<lambda>b. b\<lparr> b_distance :=
                 Some (calculateDistance env (lat loc) (lng loc) (b_latitude b) (b_longitude b)
                         (Some (case unit0 of None \<Rightarrow> ''M'' | Some u \<Rightarrow> u))) \<rparr>)
              businesses)"

text \<open>\<open>a <= b\<close> on numbers: false when either is NaN.\<close>

fun num_le :: "jsnum \<Rightarrow> jsnum \<Rightarrow> bool" where
  "num_le (Num a) (Num b) = (a \<le> b)"
| "num_le _ _ = False"

text \<open>
  The callback \<open>b => b.distance && b.distance <= radiusInMiles\<close>: a falsy distance
  (missing, 0 or NaN) is the value of the conjunction, and \<open>filter\<close> drops the entry.
\<close>

definition within_radius :: "business \<Rightarrow> jsnum \<Rightarrow> bool" where
  "within_radius b radiusInMiles =
     (case b_distance b of
        None \<Rightarrow> False
      | Some d \<Rightarrow> (if truthy_num d then num_le d radiusInMiles else False))"

definition filterByDistance :: "business list \<Rightarrow> jsnum option \<Rightarrow> business list" where
  "filterByDistance businesses radius0 =
     (let radiusInMiles = (case radius0 of None \<Rightarrow> Num 5 | Some r \<Rightarrow> r)
      in filter (\<lambda>b. within_radius b radiusInMiles) businesses)"

definition getNearbyBusinesses :: "builtins \<Rightarrow> business list option \<Rightarrow> storage
    \<Rightarrow> location option \<Rightarrow> business list" where
  "getNearbyBusinesses env fetched st userLocation =
     (case userLocation of
        None \<Rightarrow> loadBusinesses fetched st
      | Some loc \<Rightarrow> addDistancesToBusinesses env (loadBusinesses fetched st) userLocation (Some ''M''))"

definition getBusinessesWithinRadius :: "builtins \<Rightarrow> business list option \<Rightarrow> storage
    \<Rightarrow> location option \<Rightarrow> jsnum option \<Rightarrow> business list" where
  "getBusinessesWithinRadius env fetched st userLocation radius0 =
     (let radiusMiles = (case radius0 of None \<Rightarrow> Num 5 | Some r \<Rightarrow> r);
          businesses = getNearbyBusinesses env fetched st userLocation
      in filterByDistance businesses (Some radiusMiles))"

section \<open>router\<close>

datatype page = HomePage | BusinessPage "string option" | FavoritesPage | AdminPage | JudgePage

text \<open>
  What \<open>handleRoute\<close> does with the hash: it calls a page function, or it calls a
  function that \<open>routes\<close> inherits from \<open>Object.prototype\<close>, which returns and renders
  no page, or the call throws a TypeError (the inherited value is not a function, or the
  inherited function rejects the missing arguments).
\<close>

datatype outcome = Loads page | CallsInherited string | ThrowsTypeError

text \<open>\<open>s.split('/')\<close>.\<close>

fun split_slash :: "string \<Rightarrow> string list" where
  "split_slash [] = [[]]"
| "split_slash (x # xs) =
     (if x = CHR ''/'' then [] # split_slash xs
      else (case split_slash xs of
              p # ps \<Rightarrow> (x # p) # ps
            | [] \<Rightarrow> [[x]]))"

text \<open>
  \<open>routes[route]\<close>: the five own properties of the object literal, then the properties
  of its prototype \<open>Object.prototype\<close>.
\<close>

datatype property =
    PageFunction page
  | InheritedFunction
  | InheritedThrowingFunction
  | InheritedObject
  | Undefined

text \<open>The functions of \<open>Object.prototype\<close> that return when called without arguments.\<close>

definition object_prototype_functions :: "string list" where
  "object_prototype_functions =
     [''constructor'', ''hasOwnProperty'', ''isPrototypeOf'', ''propertyIsEnumerable'',
      ''toLocaleString'', ''toString'', ''valueOf'', ''__lookupGetter__'',
      ''__lookupSetter__'']"

text \<open>Those that throw a TypeError without a function as second argument.\<close>

definition object_prototype_throwing :: "string list" where
  "object_prototype_throwing = [''__defineGetter__'', ''__defineSetter__'']"

definition routes :: "string \<Rightarrow> property" where
  "routes route =
     (if route = ''home'' then PageFunction HomePage
      else if route = ''business'' then PageFunction (BusinessPage None)
      else if route = ''favorites'' then PageFunction FavoritesPage
      else if route = ''admin'' then PageFunction AdminPage
      else if route = ''judge'' then PageFunction JudgePage
      else if route \<in> set object_prototype_functions then InheritedFunction
      else if route \<in> set object_prototype_throwing then InheritedThrowingFunction
      else if route = ''__proto__'' then InheritedObject
      else Undefined)"

definition handleRoute :: "string \<Rightarrow> outcome" where
  "handleRoute location_hash =
     (let hash = (if location_hash = [] then ''#/home'' else location_hash);
          parts = split_slash (drop 2 hash);
          route = (case parts of r # _ \<Rightarrow> r | [] \<Rightarrow> []);
          param = (case parts of _ # p # _ \<Rightarrow> (if p \<noteq> [] then Some p else None) | _ \<Rightarrow> None)
      in if route = ''business'' \<and> param \<noteq> None then Loads (BusinessPage param)
         else (case routes route of
                 PageFunction pg \<Rightarrow> Loads pg
               | InheritedFunction \<Rightarrow> CallsInherited route
               | InheritedThrowingFunction \<Rightarrow> ThrowsTypeError
               | InheritedObject \<Rightarrow> ThrowsTypeError
               | Undefined \<Rightarrow> Loads HomePage))"

section \<open>reviewService: the operations\<close>

definition loadReviews :: "builtins \<Rightarrow> review list option \<Rightarrow> review list option \<Rightarrow> storage
    \<Rightarrow> review list" where
  "loadReviews env fetched originalReviewsCache st =
     (let reviews = mergeReviews env fetched originalReviewsCache st;
          hiddenIds = getLocalData (reviews_hidden st)
      in filter (\<lambda>r. r_id r \<notin> set hiddenIds) reviews)"

definition getReviewsForBusiness :: "builtins \<Rightarrow> review list option \<Rightarrow> review list option
    \<Rightarrow> storage \<Rightarrow> jsid \<Rightarrow> review list" where
  "getReviewsForBusiness env fetched originalReviewsCache st businessId =
     (let reviews = mergeReviews env fetched originalReviewsCache st
      in filter (\<lambda>review. String_js env (r_businessId review) = String_js env businessId) reviews)"

text \<open>\<open>upsertCustomReview\<close> returns the normalised review and writes \<open>reviews_custom\<close>.\<close>

definition upsertCustomReview :: "builtins \<Rightarrow> review \<Rightarrow> storage \<Rightarrow> review \<times> storage" where
  "upsertCustomReview env review st =
     (let custom = getCustomReviews env st;
          index = findIndex (\<lambda>r. r_id r = r_id review) custom;
          normalized = normalizeReview env review;
          custom' = (case index of
                       Some i \<Rightarrow> custom[i := normalized]
                     | None \<Rightarrow> custom @ [normalized])
      in (normalized, st\<lparr> reviews_custom := Some custom' \<rparr>))"

text \<open>The fields of the form object that \<open>addReview\<close> reads.\<close>

record reviewObj =
  o_text :: jsval
  o_rating :: jsval
  o_image :: jsval

definition addReview :: "builtins \<Rightarrow> jsid \<Rightarrow> reviewObj \<Rightarrow> storage \<Rightarrow> review \<times> storage" where
  "addReview env businessId obj st =
     (let newReview = \<lparr> r_id = IdNum (now env),
                        r_businessId = businessId,
                        r_text = o_text obj,
                        r_rating = o_rating obj,
                        r_likes = JNum 0,
                        r_comments = JArr [],
                        r_image = js_or (o_image obj) (JStr placeholder),
                        r_date = JStr (nowISO env) \<rparr>
      in upsertCustomReview env newReview st)"

datatype error = ReviewNotFound

text \<open>
  \<open>likeReview\<close> and \<open>commentOnReview\<close>: the thrown error is \<open>Inl\<close>; the storage is
  returned beside the result, unchanged when the function throws before it writes.
\<close>

definition likeReview :: "builtins \<Rightarrow> review list option \<Rightarrow> review list option \<Rightarrow> jsid
    \<Rightarrow> storage \<Rightarrow> (error + review) \<times> storage" where
  "likeReview env fetched originalReviewsCache reviewId st =
     (let reviews = mergeReviews env fetched originalReviewsCache st
      in case find (\<lambda>r. String_js env (r_id r) = String_js env reviewId) reviews of
           None \<Rightarrow> (Inl ReviewNotFound, st)
         | Some review \<Rightarrow>
             (let updated = review\<lparr> r_likes := JNum (number_or_zero env (r_likes review) + 1) \<rparr>;
                  (normalized, st') = upsertCustomReview env updated st
              in (Inr normalized, st')))"

definition commentOnReview :: "builtins \<Rightarrow> review list option \<Rightarrow> review list option \<Rightarrow> jsid
    \<Rightarrow> jsval \<Rightarrow> storage \<Rightarrow> (error + review) \<times> storage" where
  "commentOnReview env fetched originalReviewsCache reviewId commentText st =
     (let reviews = mergeReviews env fetched originalReviewsCache st
      in case find (\<lambda>r. String_js env (r_id r) = String_js env reviewId) reviews of
           None \<Rightarrow> (Inl ReviewNotFound, st)
         | Some review \<Rightarrow>
             (let updated = review\<lparr> r_comments :=
                    JArr ((case r_comments review of JArr xs \<Rightarrow> xs | _ \<Rightarrow> []) @ [commentText]) \<rparr>;
                  (normalized, st') = upsertCustomReview env updated st
              in (Inr normalized, st')))"

definition getUserReviews :: "builtins \<Rightarrow> storage \<Rightarrow> review list" where
  "getUserReviews env st = getCustomReviews env st"

text \<open>What the claims call normalised.\<close>

definition is_number :: "jsval \<Rightarrow> bool" where
  "is_number v = (case v of JNum x \<Rightarrow> True | _ \<Rightarrow> False)"

definition is_nonempty_string :: "jsval \<Rightarrow> bool" where
  "is_nonempty_string v = (case v of JStr s \<Rightarrow> s \<noteq> [] | _ \<Rightarrow> False)"

definition is_string :: "jsval \<Rightarrow> bool" where
  "is_string v = (case v of JStr s \<Rightarrow> True | _ \<Rightarrow> False)"

section \<open>dealsService: active deals\<close>



section \<open>favoritesService and recommendationService\<close>



record preferences =
  preferredCategories :: "string list"
  p_favorites :: "string list"
  historyCategories :: "string list"









section \<open>Predicates and quantities of the specification\<close>







text \<open>
  A normalised review: the like count is a number, the comments are an array, and the
  image is truthy, hence a non-empty string whenever it is a string.
\<close>

definition normalized :: "review \<Rightarrow> bool" where
  "normalized r =
     (is_number (r_likes r) \<and> isArray (r_comments r) \<and> truthy (r_image r)
      \<and> (is_string (r_image r) \<longrightarrow> is_nonempty_string (r_image r)))"

text \<open>
  The module variable \<open>originalReviewsCache\<close> is only ever assigned the normalised
  fetch result or the empty list.
\<close>

definition cache_inv :: "review list option \<Rightarrow> bool" where
  "cache_inv originalReviewsCache =
     (case originalReviewsCache of None \<Rightarrow> True | Some c \<Rightarrow> list_all normalized c)"

section \<open>Example data\<close>

definition ex_env :: builtins where
  "ex_env = \<lparr> toNumberOther = (\<lambda>v. None),
              parseDate = (\<lambda>v. case v of JNum x \<Rightarrow> Some \<lfloor>x\<rfloor> | _ \<Rightarrow> None),
              now = 1000,
              nowISO = ''1970-01-01T00:00:01.000Z'',
              largeNumberToString = (\<lambda>n. ''1e+21''),
              fl = (\<lambda>x. x),
              sinD = sin,
              cosD = cos,
              atan2D = (\<lambda>y x. arctan (y / x)) \<rparr>"

definition empty_storage :: storage where
  "empty_storage = \<lparr> businesses_custom = None, businesses_deleted_ids = None,
     deals_custom = None, deals_deleted_ids = None, reviews_custom = None,
     reviews_deleted_ids = None, reviews_hidden = None, favorites = None \<rparr>"

definition biz :: "int \<Rightarrow> string \<Rightarrow> business" where
  "biz i n = \<lparr> b_id = IdNum i, b_name = n, b_category = ''Food'', b_rating = Some 4,
      b_latitude = Num 40, b_longitude = Num (-75), b_distance = None \<rparr>"

definition ex_deal :: "int \<Rightarrow> string \<Rightarrow> deal" where
  "ex_deal i t = \<lparr> d_id = IdNum i, d_businessId = IdNum 1, d_title = t,
      d_startDate = JNum 0, d_endDate = JNum 2000 \<rparr>"

definition ex_review :: "int \<Rightarrow> real \<Rightarrow> review" where
  "ex_review i n = \<lparr> r_id = IdNum i, r_businessId = IdNum 1, r_text = JStr ''good'',
      r_rating = JNum 5, r_likes = JNum n, r_comments = JArr [], r_image = JStr ''a.png'',
      r_date = JNum 0 \<rparr>"

text \<open>A stored review whose image is the number 42.\<close>

definition numeric_image_review :: review where
  "numeric_image_review = (ex_review 7 0)\<lparr> r_image := JNum 42 \<rparr>"

definition ex_form :: reviewObj where
  "ex_form = \<lparr> o_text = JStr ''fine'', o_rating = JNum 4, o_image = JUndefined \<rparr>"

text \<open>A custom business whose id is also in the deleted ids.\<close>

definition st_deleted_custom :: storage where
  "st_deleted_custom = empty_storage\<lparr> businesses_custom := Some [biz 1 ''a''],
      businesses_deleted_ids := Some [IdNum 1] \<rparr>"

text \<open>Custom lists with one id twice.\<close>

definition st_duplicate_custom :: storage where
  "st_duplicate_custom = empty_storage\<lparr> businesses_custom := Some [biz 1 ''a'', biz 1 ''b''],
      reviews_custom := Some [ex_review 1 0, ex_review 1 5] \<rparr>"

definition st_overlay :: storage where
  "st_overlay = empty_storage\<lparr> businesses_custom := Some [biz 2 ''B'', biz 3 ''c''],
      businesses_deleted_ids := Some [IdNum 1],
      deals_custom := Some [ex_deal 2 ''new''],
      reviews_custom := Some [ex_review 1 9],
      reviews_deleted_ids := Some [IdNum 2] \<rparr>"

definition ex_prefs :: preferences where
  "ex_prefs = \<lparr> preferredCategories = [], p_favorites = [], historyCategories = [] \<rparr>"

text \<open>An active deal for business 1 that the administrator created.\<close>

definition st_custom_deal :: storage where
  "st_custom_deal = empty_storage\<lparr> deals_custom := Some [ex_deal 2 ''admin''] \<rparr>"

definition st_favorite :: storage where
  "st_favorite = empty_storage\<lparr> favorites := Some [IdStr ''1''] \<rparr>"

definition ex_distances :: "business list" where
  "ex_distances = [(biz 1 ''here'')\<lparr> b_distance := Some (Num 0) \<rparr>,
                   (biz 2 ''near'')\<lparr> b_distance := Some (Num 3) \<rparr>,
                   (biz 3 ''far'')\<lparr> b_distance := Some (Num 7) \<rparr>,
                   (biz 4 ''nowhere'')\<lparr> b_distance := Some NaN \<rparr>,
                   biz 5 ''unknown'']"

lemmas ex_defs = empty_storage_def biz_def ex_deal_def ex_review_def ex_env_def
  st_deleted_custom_def st_duplicate_custom_def st_overlay_def st_favorite_def
  st_custom_deal_def ex_prefs_def

section \<open>The overlay fold and the merge of the specification\<close>

lemma getLocalData_Some [simp]: "getLocalData (Some xs) = xs"
  by (simp add: getLocalData_def)

lemma getLocalData_None [simp]: "getLocalData None = []"
  by (simp add: getLocalData_def)

lemma String_js_small [simp]:
  "String_js env (IdNum 1) = ''1''" "String_js env (IdNum 2) = ''2''" "String_js env (IdNum 9) = ''9''"
  by (simp_all add: dec_nat.simps)

lemma findIndex_None: "findIndex P xs = None \<longleftrightarrow> (\<forall>x \<in> set xs. \<not> P x)"
  by (induction xs) auto

lemma findIndex_Some:
  "findIndex P xs = Some i \<Longrightarrow> i < length xs \<and> P (xs ! i) \<and> (\<forall>j < i. \<not> P (xs ! j))"
proof (induction xs arbitrary: i)
  case Nil
  then show ?case by simp
next
  case (Cons x xs)
  show ?case
  proof (cases "P x")
    case True
    with Cons.prems show ?thesis by simp
  next
    case False
    with Cons.prems obtain k where k: "findIndex P xs = Some k" "i = Suc k"
      by auto
    from Cons.IH [OF k(1)] False k(2) show ?thesis
      by (auto simp: nth_Cons split: nat.splits)
  qed
qed

lemma overlay_step_ids:
  "f ` set (overlay_step f bs c) = insert (f c) (f ` set bs)"
proof (cases "findIndex (\<lambda>b. f b = f c) bs")
  case None
  then show ?thesis by (simp add: overlay_step_def)
next
  case (Some i)
  from findIndex_Some [OF Some] have i: "i < length bs" "f (bs ! i) = f c" by auto
  have "map f (bs[i := c]) = map f bs"
    using i by (simp add: map_update list_update_same_conv)
  then have "f ` set (bs[i := c]) = f ` set bs"
    by (metis list.set_map)
  moreover have "f c \<in> f ` set bs" using i by (metis imageI nth_mem)
  ultimately show ?thesis using Some by (auto simp: overlay_step_def)
qed

lemma set_foldl_overlay_ids:
  "f ` set (foldl (overlay_step f) bs cs) = f ` set bs \<union> f ` set cs"
  by (induction cs arbitrary: bs) (auto simp: overlay_step_ids)

lemma overlay_step_replace:
  assumes "distinct (map f bs)" "f c \<in> f ` set bs"
  shows "overlay_step f bs c = map (\<lambda>b. if f b = f c then c else b) bs"
proof -
  from assms(2) obtain i where i: "findIndex (\<lambda>b. f b = f c) bs = Some i"
    using findIndex_None [of "\<lambda>b. f b = f c" bs] by (cases "findIndex (\<lambda>b. f b = f c) bs") auto
  from findIndex_Some [OF i] have il: "i < length bs" and fi: "f (bs ! i) = f c" by auto
  have "bs[i := c] = map (\<lambda>b. if f b = f c then c else b) bs"
  proof (rule nth_equalityI)
    show "length (bs[i := c]) = length (map (\<lambda>b. if f b = f c then c else b) bs)" by simp
  next
    fix j assume j: "j < length (bs[i := c])"
    then have jl: "j < length bs" by simp
    show "bs[i := c] ! j = map (\<lambda>b. if f b = f c then c else b) bs ! j"
    proof (cases "j = i")
      case True
      then show ?thesis using il fi by simp
    next
      case False
      have "f (bs ! j) \<noteq> f (bs ! i)"
        using assms(1) False il jl
        by (metis distinct_conv_nth length_map nth_map)
      then show ?thesis using False jl fi by simp
    qed
  qed
  then show ?thesis using i by (simp add: overlay_step_def)
qed

lemma overlay_step_distinct:
  assumes "distinct (map f bs)"
  shows "distinct (map f (overlay_step f bs c))"
proof (cases "f c \<in> f ` set bs")
  case True
  have "map f (map (\<lambda>b. if f b = f c then c else b) bs) = map f bs"
    by (induction bs) auto
  then have "map f (overlay_step f bs c) = map f bs"
    using overlay_step_replace [OF assms True] by simp
  then show ?thesis using assms by simp
next
  case False
  then have "findIndex (\<lambda>b. f b = f c) bs = None"
    unfolding findIndex_None by (metis image_eqI)
  then show ?thesis using assms False by (simp add: overlay_step_def)
qed

lemma foldl_overlay:
  assumes "distinct (map f bs)" "distinct (map f cs)"
  shows "foldl (overlay_step f) bs cs =
         map (\<lambda>b. case find (\<lambda>c. f c = f b) cs of Some c \<Rightarrow> c | None \<Rightarrow> b) bs
         @ filter (\<lambda>c. f c \<notin> f ` set bs) cs"
  using assms
proof (induction cs arbitrary: bs)
  case Nil
  then show ?case by (simp add: map_idI)
next
  case (Cons c cs)
  have dcs: "distinct (map f cs)" and cnot: "f c \<notin> f ` set cs"
    using Cons.prems(2) by auto
  have d': "distinct (map f (overlay_step f bs c))"
    by (rule overlay_step_distinct [OF Cons.prems(1)])
  note IH = Cons.IH [OF d' dcs]
  have nc: "\<And>x. x \<in> set cs \<Longrightarrow> f x \<noteq> f c"
    using cnot by (metis image_eqI)
  have nofind: "find (\<lambda>x. f x = f c) cs = None"
    unfolding find_None_iff using cnot by (metis image_eqI)
  show ?case
  proof (cases "f c \<in> f ` set bs")
    case True
    have st: "overlay_step f bs c = map (\<lambda>b. if f b = f c then c else b) bs"
      by (rule overlay_step_replace [OF Cons.prems(1) True])
    have ids: "f ` set (overlay_step f bs c) = f ` set bs"
      using True by (auto simp: overlay_step_ids)
    have "map (\<lambda>b. case find (\<lambda>c. f c = f b) cs of Some c \<Rightarrow> c | None \<Rightarrow> b)
            (map (\<lambda>b. if f b = f c then c else b) bs)
          = map (\<lambda>b. case find (\<lambda>c. f c = f b) (c # cs) of Some c \<Rightarrow> c | None \<Rightarrow> b) bs"
      using nofind by (auto simp: eq_commute [of "f c"])
    then show ?thesis using IH True st ids by simp
  next
    case False
    then have nb: "\<And>x. x \<in> set bs \<Longrightarrow> f x \<noteq> f c"
      by (metis image_eqI)
    then have "findIndex (\<lambda>b. f b = f c) bs = None"
      unfolding findIndex_None by blast
    then have st: "overlay_step f bs c = bs @ [c]"
      by (simp add: overlay_step_def)
    have "filter (\<lambda>x. f x \<notin> f ` set (bs @ [c])) cs = filter (\<lambda>x. f x \<notin> f ` set bs) cs"
      using nc by (auto intro!: filter_cong)
    moreover have "map (\<lambda>b. case find (\<lambda>c. f c = f b) cs of Some c \<Rightarrow> c | None \<Rightarrow> b) bs
       = map (\<lambda>b. case find (\<lambda>c. f c = f b) (c # cs) of Some c \<Rightarrow> c | None \<Rightarrow> b) bs"
      using nb by (auto simp: eq_commute [of "f c"])
    ultimately show ?thesis using IH st False nofind by simp
  qed
qed


lemma overlay_keeps_id:
  "f (case find (\<lambda>c. f c = f b) cs of Some c \<Rightarrow> c | None \<Rightarrow> b) = f b"
  by (auto split: option.splits simp: find_Some_iff)

lemma overlay_eq_merge_spec:
  assumes "distinct (map f base)" "distinct (map f custom)"
    and nd: "\<forall>c \<in> set custom. f c \<notin> set del"
  shows "foldl (overlay_step f) (filter (\<lambda>b. f b \<notin> set del) base) custom
         = merge_spec f base custom del"
proof -
  let ?nd = "\<lambda>e. f e \<notin> set del"
  let ?ov = "\<lambda>b. case find (\<lambda>c. f c = f b) custom of Some c \<Rightarrow> c | None \<Rightarrow> b"
  have d: "distinct (map f (filter ?nd base))"
    using assms(1) by (simp add: distinct_map_filter)
  have 1: "filter ?nd (map ?ov base) = map ?ov (filter ?nd base)"
    by (simp add: filter_map o_def overlay_keeps_id)
  have 2: "filter ?nd (filter (\<lambda>c. f c \<notin> f ` set base) custom)
           = filter (\<lambda>c. f c \<notin> f ` set (filter ?nd base)) custom"
  proof -
    have "\<And>c. c \<in> set custom \<Longrightarrow>
            (f c \<notin> f ` set base \<and> ?nd c) = (f c \<notin> f ` set (filter ?nd base))"
    proof -
      fix c assume c: "c \<in> set custom"
      then have ndc: "?nd c" using nd by blast
      show "(f c \<notin> f ` set base \<and> ?nd c) = (f c \<notin> f ` set (filter ?nd base))"
      proof
        assume "f c \<notin> f ` set base \<and> ?nd c"
        then show "f c \<notin> f ` set (filter ?nd base)" by auto
      next
        assume a: "f c \<notin> f ` set (filter ?nd base)"
        have "f c \<notin> f ` set base"
        proof
          assume "f c \<in> f ` set base"
          then obtain b where b: "b \<in> set base" "f b = f c" by force
          with ndc have "b \<in> set (filter ?nd base)" by simp
          with b(2) a show False by (metis image_eqI)
        qed
        with ndc show "f c \<notin> f ` set base \<and> ?nd c" by simp
      qed
    qed
    then show ?thesis by (simp cong: filter_cong)
  qed
  show ?thesis
    unfolding merge_spec_def foldl_overlay [OF d assms(2)] filter_append 1 2 ..
qed

lemma map_of_rev_find:
  "distinct (map f cs) \<Longrightarrow> map_of (rev (map (\<lambda>r. (f r, r)) cs)) k = find (\<lambda>c. f c = k) cs"
proof (induction cs)
  case Nil
  then show ?case by simp
next
  case (Cons c cs)
  then have "f c \<notin> fst ` set (rev (map (\<lambda>r. (f r, r)) cs))"
    by (simp add: image_image)
  then have none: "map_of (rev (map (\<lambda>r. (f r, r)) cs)) (f c) = None"
    by (metis map_of_eq_None_iff)
  from Cons have IH: "map_of (rev (map (\<lambda>r. (f r, r)) cs)) k = find (\<lambda>c. f c = k) cs"
    by simp
  show ?case
    using none IH by (auto simp: map_add_def split: option.splits)
qed

lemma customById_find:
  assumes "distinct (map r_id cs)"
  shows "customById cs k = find (\<lambda>c. r_id c = k) cs"
  unfolding customById_def by (rule map_of_rev_find [OF assms])

lemma normalizeReview_id [simp]: "r_id (normalizeReview env r) = r_id r"
  by (simp add: normalizeReview_def)

lemma mergeReviews_on_eq_merge_spec:
  assumes "distinct (map r_id (getLocalData (reviews_custom st)))"
  shows "mergeReviews_on env original st
         = merge_spec r_id original (getCustomReviews env st) (getLocalData (reviews_deleted_ids st))"
proof -
  have d: "distinct (map r_id (getCustomReviews env st))"
    using assms by (simp add: getCustomReviews_def o_def)
  have ex: "\<And>r. list_ex (\<lambda>orig. r_id orig = r_id r) original = (r_id r \<in> r_id ` set original)"
    unfolding list_ex_iff by (metis image_iff)
  show ?thesis
    by (simp add: ex mergeReviews_on_def merge_spec_def Let_def customById_find [OF d])
qed

lemma loadBusinesses_overlay:
  "loadBusinesses fetched st =
     foldl (overlay_step b_id)
       (filter (\<lambda>b. b_id b \<notin> set (getLocalData (businesses_deleted_ids st)))
          (case fetched of Some bs \<Rightarrow> bs | None \<Rightarrow> []))
       (getLocalData (businesses_custom st))"
  by (simp add: loadBusinesses_def Let_def overlay_step_def [abs_def])

lemma loadDeals_overlay:
  "fst (loadDeals fetched cache st) =
     foldl (overlay_step d_id)
       (filter (\<lambda>d. d_id d \<notin> set (getLocalData (deals_deleted_ids st)))
          (case cache of Some c \<Rightarrow> c | None \<Rightarrow> (case fetched of Some ds \<Rightarrow> ds | None \<Rightarrow> [])))
       (getLocalData (deals_custom st))"
  by (simp add: loadDeals_def Let_def overlay_step_def [abs_def])

text \<open>
  Claim C1, as amended.  \<open>loadBusinesses\<close> and \<open>loadDeals\<close> filter only the base list
  by the deleted ids and then overlay the custom entries; \<open>mergeReviews\<close> overlays the
  normalised custom reviews and filters the whole list.  Each of them returns the merge of
  the specification where the ids of the base list are distinct, the ids of the custom
  list are distinct and no custom entry has a deleted id (for \<open>mergeReviews\<close> distinct
  custom ids suffice).
\<close>

theorem merge_overlay_agree:
  assumes "distinct (map b_id base)"
    and "distinct (map b_id (getLocalData (businesses_custom st)))"
    and "\<forall>c \<in> set (getLocalData (businesses_custom st)). b_id c \<notin> set (getLocalData (businesses_deleted_ids st))"
    and "distinct (map d_id dbase)"
    and "distinct (map d_id (getLocalData (deals_custom st)))"
    and "\<forall>c \<in> set (getLocalData (deals_custom st)). d_id c \<notin> set (getLocalData (deals_deleted_ids st))"
    and "distinct (map r_id (getLocalData (reviews_custom st)))"
  shows "loadBusinesses (Some base) st
           = merge_spec b_id base (getLocalData (businesses_custom st))
               (getLocalData (businesses_deleted_ids st))
       \<and> fst (loadDeals (Some dbase) None st)
           = merge_spec d_id dbase (getLocalData (deals_custom st))
               (getLocalData (deals_deleted_ids st))
       \<and> mergeReviews env (Some rbase) None st
           = merge_spec r_id (map (normalizeReview env) rbase)
               (map (normalizeReview env) (getLocalData (reviews_custom st)))
               (getLocalData (reviews_deleted_ids st))"
proof (intro conjI)
  show "loadBusinesses (Some base) st
           = merge_spec b_id base (getLocalData (businesses_custom st))
               (getLocalData (businesses_deleted_ids st))"
    unfolding loadBusinesses_overlay using overlay_eq_merge_spec [OF assms(1,2,3)] by simp
  show "fst (loadDeals (Some dbase) None st)
           = merge_spec d_id dbase (getLocalData (deals_custom st))
               (getLocalData (deals_deleted_ids st))"
    unfolding loadDeals_overlay using overlay_eq_merge_spec [OF assms(4,5,6)] by simp
  show "mergeReviews env (Some rbase) None st
           = merge_spec r_id (map (normalizeReview env) rbase)
               (map (normalizeReview env) (getLocalData (reviews_custom st)))
               (getLocalData (reviews_deleted_ids st))"
    using mergeReviews_on_eq_merge_spec [OF assms(7)]
    by (simp add: mergeReviews_def ensureOriginalReviews_def getCustomReviews_def)
qed

text \<open>
  The three functions are not one function: \<open>loadBusinesses\<close> keeps a custom entry whose
  id is deleted, where the merge of the specification drops it, and it keeps one entry
  for a custom id stored twice, where \<open>mergeReviews\<close> keeps both.
\<close>

theorem merge_not_identical_counterexample:
  "loadBusinesses (Some []) st_deleted_custom = [biz 1 ''a'']
   \<and> merge_spec b_id [] [biz 1 ''a''] [IdNum 1] = []
   \<and> map b_id (loadBusinesses (Some []) st_duplicate_custom) = [IdNum 1]
   \<and> map r_id (mergeReviews ex_env (Some []) None st_duplicate_custom) = [IdNum 1, IdNum 1]"
  by (simp add: loadBusinesses_def mergeReviews_def mergeReviews_on_def ensureOriginalReviews_def
      getCustomReviews_def merge_spec_def normalizeReview_def customById_def ex_defs)

theorem merge_overlay_agree_witness:
  "loadBusinesses (Some [biz 1 ''a'', biz 2 ''b'']) st_overlay = [biz 2 ''B'', biz 3 ''c'']
   \<and> fst (loadDeals (Some [ex_deal 1 ''old'']) None st_overlay)
       = [ex_deal 1 ''old'', ex_deal 2 ''new'']
   \<and> mergeReviews ex_env (Some [ex_review 1 0, ex_review 2 0]) None st_overlay = [ex_review 1 9]"
proof -
  have h1: "distinct (map b_id [biz 1 ''a'', biz 2 ''b''])"
    and h2: "distinct (map b_id (getLocalData (businesses_custom st_overlay)))"
    and h3: "\<forall>c \<in> set (getLocalData (businesses_custom st_overlay)).
               b_id c \<notin> set (getLocalData (businesses_deleted_ids st_overlay))"
    and h4: "distinct (map d_id [ex_deal 1 ''old''])"
    and h5: "distinct (map d_id (getLocalData (deals_custom st_overlay)))"
    and h6: "\<forall>c \<in> set (getLocalData (deals_custom st_overlay)).
               d_id c \<notin> set (getLocalData (deals_deleted_ids st_overlay))"
    and h7: "distinct (map r_id (getLocalData (reviews_custom st_overlay)))"
    by (simp_all add: ex_defs)
  show ?thesis
    using merge_overlay_agree [OF h1 h2 h3 h4 h5 h6 h7, of ex_env "[ex_review 1 0, ex_review 2 0]"]
    by (simp add: merge_spec_def normalizeReview_def number_or_zero_def isArray_def js_or_def ex_defs)
qed

lemma loadBusinesses_ids:
  "b_id ` set (loadBusinesses fetched st)
   = b_id ` set (filter (\<lambda>b. b_id b \<notin> set (getLocalData (businesses_deleted_ids st)))
                   (case fetched of Some bs \<Rightarrow> bs | None \<Rightarrow> []))
     \<union> b_id ` set (getLocalData (businesses_custom st))"
  unfolding loadBusinesses_overlay by (rule set_foldl_overlay_ids)

lemma deleteBusiness_deleted:
  "getLocalData (businesses_deleted_ids (deleteBusiness i st))
   = (if i \<in> set (getLocalData (businesses_deleted_ids st))
      then getLocalData (businesses_deleted_ids st)
      else getLocalData (businesses_deleted_ids st) @ [i])"
  by (simp add: deleteBusiness_def Let_def)

lemma deleteBusiness_custom:
  "businesses_custom (deleteBusiness i st)
   = Some (filter (\<lambda>b. b_id b \<noteq> i) (getLocalData (businesses_custom st)))"
  by (simp add: deleteBusiness_def Let_def)

lemma deleteBusiness_idem: "deleteBusiness i (deleteBusiness i st) = deleteBusiness i st"
  by (simp add: deleteBusiness_def Let_def)

text \<open>
  Claim C5.  After \<open>deleteBusiness i\<close> no business of the merged list has the id \<open>i\<close>;
  the id is in \<open>businesses_deleted_ids\<close>, added only when it was not there (its count is
  1 when it was absent and unchanged otherwise), a second delete changes nothing, and the
  custom entries with that id are gone from \<open>businesses_custom\<close>.
\<close>

theorem deleteBusiness_hides_business:
  "(\<forall>b \<in> set (loadBusinesses fetched (deleteBusiness i st)). b_id b \<noteq> i)
   \<and> i \<in> set (getLocalData (businesses_deleted_ids (deleteBusiness i st)))
   \<and> count_list (getLocalData (businesses_deleted_ids (deleteBusiness i st))) i
       = max 1 (count_list (getLocalData (businesses_deleted_ids st)) i)
   \<and> deleteBusiness i (deleteBusiness i st) = deleteBusiness i st
   \<and> businesses_custom (deleteBusiness i st)
       = Some (filter (\<lambda>b. b_id b \<noteq> i) (getLocalData (businesses_custom st)))"
proof (intro conjI)
  have a: "i \<in> set (getLocalData (businesses_deleted_ids (deleteBusiness i st)))"
    by (simp add: deleteBusiness_deleted)
  have b: "i \<notin> b_id ` set (getLocalData (businesses_custom (deleteBusiness i st)))"
    by (auto simp: deleteBusiness_custom)
  have "i \<notin> b_id ` set (loadBusinesses fetched (deleteBusiness i st))"
    unfolding loadBusinesses_ids using a b by auto
  then show "\<forall>b \<in> set (loadBusinesses fetched (deleteBusiness i st)). b_id b \<noteq> i"
    by (metis image_eqI)
  show "i \<in> set (getLocalData (businesses_deleted_ids (deleteBusiness i st)))"
    by (simp add: deleteBusiness_deleted)
  show "count_list (getLocalData (businesses_deleted_ids (deleteBusiness i st))) i
       = max 1 (count_list (getLocalData (businesses_deleted_ids st)) i)"
  proof (cases "i \<in> set (getLocalData (businesses_deleted_ids st))")
    case True
    then have "count_list (getLocalData (businesses_deleted_ids st)) i \<noteq> 0"
      by (simp add: count_list_0_iff)
    then show ?thesis using True by (simp add: deleteBusiness_deleted)
  next
    case False
    then have "count_list (getLocalData (businesses_deleted_ids st)) i = 0"
      by (simp add: count_list_0_iff)
    then show ?thesis using False by (simp add: deleteBusiness_deleted)
  qed
  show "deleteBusiness i (deleteBusiness i st) = deleteBusiness i st"
    by (rule deleteBusiness_idem)
  show "businesses_custom (deleteBusiness i st)
       = Some (filter (\<lambda>b. b_id b \<noteq> i) (getLocalData (businesses_custom st)))"
    by (rule deleteBusiness_custom)
qed

theorem deleteBusiness_hides_business_witness:
  "loadBusinesses (Some [biz 1 ''a'', biz 2 ''b''])
       (deleteBusiness (IdNum 1) (empty_storage\<lparr> businesses_custom := Some [biz 1 ''x'', biz 3 ''c''] \<rparr>))
     = [biz 2 ''b'', biz 3 ''c'']
   \<and> businesses_deleted_ids
       (deleteBusiness (IdNum 1) (empty_storage\<lparr> businesses_custom := Some [biz 1 ''x'', biz 3 ''c''] \<rparr>))
     = Some [IdNum 1]
   \<and> b_id (biz 2 ''b'') \<noteq> IdNum 1 \<and> b_id (biz 3 ''c'') \<noteq> IdNum 1"
  using deleteBusiness_hides_business [of "Some [biz 1 ''a'', biz 2 ''b'']" "IdNum 1"
      "empty_storage\<lparr> businesses_custom := Some [biz 1 ''x'', biz 3 ''c''] \<rparr>"]
  by (simp add: loadBusinesses_def deleteBusiness_def ex_defs)

lemma number_or_zero_spec: "number_or_zero env (r_likes r) = likes_spec env r"
  by (simp add: number_or_zero_def likes_spec_def split: option.splits)

lemma getCommentsCount_spec: "getCommentsCount r = comments_spec r"
  by (cases "r_comments r") (simp_all add: getCommentsCount_def comments_spec_def isArray_def)

lemma floor_days_less:
  fixes z :: int
  shows "\<lfloor>real_of_int x / real_of_int msPerDay\<rfloor> < z \<longleftrightarrow> real_of_int x / 86400000 < real_of_int z"
  by (simp add: floor_less_iff msPerDay_def)

lemma getRecencyWeight_spec: "getRecencyWeight env r = recencyBucket_spec env r"
proof (cases "parseDate env (r_date r)")
  case None
  then show ?thesis
    by (simp add: getRecencyWeight_def recencyBucket_spec_def daysSince_def age_days_def)
next
  case (Some t)
  have 7: "\<lfloor>real_of_int (now env - t) / real_of_int msPerDay\<rfloor> < 7
             \<longleftrightarrow> real_of_int (now env - t) / 86400000 < 7"
    using floor_days_less [of "now env - t" 7] by simp
  have 30: "\<lfloor>real_of_int (now env - t) / real_of_int msPerDay\<rfloor> < 30
             \<longleftrightarrow> real_of_int (now env - t) / 86400000 < 30"
    using floor_days_less [of "now env - t" 30] by simp
  show ?thesis
    using Some
    by (simp only: getRecencyWeight_def recencyBucket_spec_def daysSince_def age_days_def
          option.case 7 30)
qed

text \<open>
  Claim C2.  \<open>calculateCredibility\<close> is likes times 2 plus the comment count plus the
  recency bucket: the likes are the coerced like count (0 when the coercion gives no
  number), the comment count is the array length or the stored number, else 0, and the
  bucket is 5 for a review less than 7 days old, 3 for less than 30 days, 1 otherwise.
\<close>

theorem calculateCredibility_formula:
  "calculateCredibility env r = likes_spec env r * 2 + comments_spec r + recencyBucket_spec env r"
  by (simp add: calculateCredibility_def Let_def number_or_zero_spec getCommentsCount_spec
        getRecencyWeight_spec)








text \<open>At equal coordinates every step of the formula is exact and the distance is 0.\<close>

lemma calculateDistance_same:
  "calculateDistance env (Num la) (Num lo) (Num la) (Num lo) u = Num 0"
  by (simp add: calculateDistance_def Let_def toRad_def Math_PI_def round_double_def)

lemma within_radius_iff:
  "within_radius b r \<longleftrightarrow> (\<exists>d. b_distance b = Some d \<and> truthy_num d \<and> num_le d r)"
  by (auto simp: within_radius_def split: option.splits)

lemma within_radius_zero: "b_distance b = Some (Num 0) \<Longrightarrow> \<not> within_radius b r"
  by (simp add: within_radius_def)

lemma getBusinessesWithinRadius_at_user:
  assumes "b \<in> set (getBusinessesWithinRadius env fetched st (Some \<lparr>lat = Num la, lng = Num lo\<rparr>) r0)"
  shows "\<not> (b_latitude b = Num la \<and> b_longitude b = Num lo)"
proof
  assume same: "b_latitude b = Num la \<and> b_longitude b = Num lo"
  from assms obtain b0 r where
    b: "b = b0\<lparr> b_distance := Some (calculateDistance env (Num la) (Num lo) (b_latitude b0)
                                     (b_longitude b0) (Some ''M'')) \<rparr>"
    and w: "within_radius b r"
    by (auto simp: getBusinessesWithinRadius_def getNearbyBusinesses_def filterByDistance_def
          addDistancesToBusinesses_def Let_def)
  from b same have "b_distance b = Some (Num 0)"
    by (simp add: calculateDistance_same)
  with w show False by (simp add: within_radius_zero)
qed

text \<open>
  Claim C8.  \<open>filterByDistance\<close> keeps exactly the businesses whose distance is truthy and
  at most the radius, \<open>getBusinessesWithinRadius\<close> is that filter on the businesses with
  their distances, and a business at distance 0 (one at the coordinates of the user) is
  never returned.
\<close>

theorem filterByDistance_truthy_within_radius:
  "filterByDistance bs (Some r)
     = filter (\<lambda>b. \<exists>d. b_distance b = Some d \<and> truthy_num d \<and> num_le d r) bs
   \<and> filterByDistance bs None = filterByDistance bs (Some (Num 5))
   \<and> getBusinessesWithinRadius env fetched st loc (Some r)
     = filterByDistance (getNearbyBusinesses env fetched st loc) (Some r)
   \<and> getBusinessesWithinRadius env fetched st loc None
     = filterByDistance (getNearbyBusinesses env fetched st loc) (Some (Num 5))
   \<and> (\<forall>b \<in> set (filterByDistance bs r0). b_distance b \<noteq> Some (Num 0))
   \<and> (\<forall>b \<in> set (getBusinessesWithinRadius env fetched st (Some \<lparr>lat = Num la, lng = Num lo\<rparr>) r0).
         \<not> (b_latitude b = Num la \<and> b_longitude b = Num lo))"
proof (intro conjI)
  show "filterByDistance bs (Some r)
     = filter (\<lambda>b. \<exists>d. b_distance b = Some d \<and> truthy_num d \<and> num_le d r) bs"
    by (simp add: filterByDistance_def within_radius_iff)
  show "filterByDistance bs None = filterByDistance bs (Some (Num 5))"
    by (simp add: filterByDistance_def)
  show "getBusinessesWithinRadius env fetched st loc (Some r)
     = filterByDistance (getNearbyBusinesses env fetched st loc) (Some r)"
    by (simp add: getBusinessesWithinRadius_def)
  show "getBusinessesWithinRadius env fetched st loc None
     = filterByDistance (getNearbyBusinesses env fetched st loc) (Some (Num 5))"
    by (simp add: getBusinessesWithinRadius_def)
  show "\<forall>b \<in> set (filterByDistance bs r0). b_distance b \<noteq> Some (Num 0)"
    by (auto simp: filterByDistance_def within_radius_zero)
  show "\<forall>b \<in> set (getBusinessesWithinRadius env fetched st (Some \<lparr>lat = Num la, lng = Num lo\<rparr>) r0).
         \<not> (b_latitude b = Num la \<and> b_longitude b = Num lo)"
    using getBusinessesWithinRadius_at_user by blast
qed

theorem filterByDistance_truthy_within_radius_witness:
  "filterByDistance ex_distances (Some (Num 5)) = [(biz 2 ''near'')\<lparr> b_distance := Some (Num 3) \<rparr>]
   \<and> getBusinessesWithinRadius ex_env (Some [biz 1 ''here'']) empty_storage
         (Some \<lparr> lat = Num 40, lng = Num (- 75) \<rparr>) (Some (Num 5)) = []"
  using filterByDistance_truthy_within_radius [where bs = ex_distances and r = "Num 5"
      and env = ex_env and fetched = "Some [biz 1 ''here'']" and st = empty_storage
      and loc = "Some \<lparr> lat = Num 40, lng = Num (- 75) \<rparr>"
      and ?r0.0 = "Some (Num 5)" and la = 40 and lo = "- 75"]
  by (simp add: filterByDistance_def within_radius_def getBusinessesWithinRadius_def
      getNearbyBusinesses_def addDistancesToBusinesses_def loadBusinesses_def
      calculateDistance_same ex_distances_def ex_defs)

lemma split_slash_nonempty: "split_slash s \<noteq> []"
  by (induction s) (auto split: list.splits)

lemma split_slash_segment:
  "CHR ''/'' \<notin> set seg \<Longrightarrow> split_slash (seg @ CHR ''/'' # rest) = seg # split_slash rest"
  by (induction seg) (auto split: list.splits)

lemma split_slash_single: "CHR ''/'' \<notin> set seg \<Longrightarrow> split_slash seg = [seg]"
  by (induction seg) (auto split: list.splits)

lemma handleRoute_empty: "handleRoute [] = Loads HomePage"
  by (simp add: handleRoute_def routes_def)

lemma handleRoute_business_id:
  assumes "i \<noteq> []" "CHR ''/'' \<notin> set i"
  shows "handleRoute (''#/business/'' @ i) = Loads (BusinessPage (Some i))"
proof -
  have "split_slash (''business'' @ CHR ''/'' # i) = ''business'' # split_slash i"
    by (rule split_slash_segment) simp
  then have "split_slash (''business/'' @ i) = [''business'', i]"
    using split_slash_single [OF assms(2)] by simp
  then show ?thesis using assms(1) by (simp add: handleRoute_def)
qed

lemma handleRoute_own_route:
  assumes "routes seg = PageFunction pg" "seg \<noteq> ''business''" "CHR ''/'' \<notin> set seg"
  shows "handleRoute (''#/'' @ seg) = Loads pg"
    and "handleRoute (''#/'' @ seg @ CHR ''/'' # rest) = Loads pg"
proof -
  have ne: "seg \<noteq> []"
    using assms(1)
    by (auto simp: routes_def object_prototype_functions_def object_prototype_throwing_def)
  show "handleRoute (''#/'' @ seg) = Loads pg"
    using assms ne split_slash_single [OF assms(3)] by (simp add: handleRoute_def)
  show "handleRoute (''#/'' @ seg @ CHR ''/'' # rest) = Loads pg"
    using assms split_slash_segment [OF assms(3), of rest]
    by (simp add: handleRoute_def split: list.splits)
qed

lemma handleRoute_unmatched:
  assumes "routes seg = Undefined" "CHR ''/'' \<notin> set seg"
  shows "handleRoute (''#/'' @ seg) = Loads HomePage"
    and "handleRoute (''#/'' @ seg @ CHR ''/'' # rest) = Loads HomePage"
proof -
  have nb: "seg \<noteq> ''business''" using assms(1) by (auto simp: routes_def)
  show "handleRoute (''#/'' @ seg) = Loads HomePage"
  proof (cases "seg = []")
    case True
    then show ?thesis
      by (simp add: handleRoute_def routes_def object_prototype_functions_def
          object_prototype_throwing_def)
  next
    case False
    then show ?thesis
      using assms nb split_slash_single [OF assms(2)] by (simp add: handleRoute_def)
  qed
  show "handleRoute (''#/'' @ seg @ CHR ''/'' # rest) = Loads HomePage"
    using assms nb split_slash_segment [OF assms(2), of rest]
    by (simp add: handleRoute_def split: list.splits)
qed

lemma handleRoute_inherited:
  assumes "seg \<in> set object_prototype_functions"
  shows "handleRoute (''#/'' @ seg) = CallsInherited seg"
proof -
  have s: "CHR ''/'' \<notin> set seg" "seg \<noteq> []" "seg \<noteq> ''business''"
    using assms by (auto simp: object_prototype_functions_def)
  have r: "routes seg = InheritedFunction"
    using assms by (auto simp: routes_def object_prototype_functions_def)
  show ?thesis
    using s r split_slash_single [OF s(1)] by (simp add: handleRoute_def)
qed

text \<open>
  Claim C7 at the hash \<open>#/constructor\<close>: the first segment names no route, yet
  \<open>routes[route]\<close> is the function inherited from \<open>Object.prototype\<close>, so that function is
  called and the home page is not loaded; at \<open>#/__proto__\<close> the call throws.
\<close>

theorem handleRoute_inherited_property:
  "handleRoute ''#/constructor'' = CallsInherited ''constructor''
   \<and> handleRoute ''#/constructor'' \<noteq> Loads HomePage
   \<and> handleRoute ''#/__proto__'' = ThrowsTypeError"
  by (simp add: handleRoute_def routes_def object_prototype_functions_def
      object_prototype_throwing_def)











lemma truthy_string: "truthy v \<Longrightarrow> is_string v \<Longrightarrow> is_nonempty_string v"
  by (cases v) (simp_all add: is_string_def is_nonempty_string_def)

lemma normalizeReview_normalized: "normalized (normalizeReview env r)"
proof -
  have t: "truthy (js_or (r_image r) (JStr placeholder))"
    by (simp add: js_or_def placeholder_def)
  show ?thesis
    unfolding normalized_def
    using t truthy_string [OF t]
    by (simp add: normalizeReview_def is_number_def isArray_def)
qed


lemma ensureOriginalReviews_normalized:
  "cache_inv cache \<Longrightarrow> list_all normalized (ensureOriginalReviews env fetched cache)"
  by (auto simp: cache_inv_def ensureOriginalReviews_def list_all_iff normalizeReview_normalized
      split: option.splits)

lemma getCustomReviews_normalized: "list_all normalized (getCustomReviews env st)"
  by (simp add: getCustomReviews_def list_all_iff normalizeReview_normalized)

lemma customById_mem: "customById custom k = Some c \<Longrightarrow> c \<in> set custom"
  unfolding customById_def by (auto dest!: map_of_SomeD)

lemma mergeReviews_on_normalized:
  assumes "list_all normalized original"
  shows "list_all normalized (mergeReviews_on env original st)"
proof -
  have c: "\<And>x. x \<in> set (getCustomReviews env st) \<Longrightarrow> normalized x"
    using getCustomReviews_normalized [of env st] by (simp add: list_all_iff)
  have o: "\<And>x. x \<in> set original \<Longrightarrow> normalized x"
    using assms by (simp add: list_all_iff)
  have "\<And>r. r \<in> set original \<Longrightarrow>
          normalized (case customById (getCustomReviews env st) (r_id r) of Some c \<Rightarrow> c | None \<Rightarrow> r)"
    using c o by (auto split: option.splits dest: customById_mem)
  then show ?thesis
    using c by (auto simp: mergeReviews_on_def Let_def list_all_iff)
qed

lemma mergeReviews_normalized:
  "cache_inv cache \<Longrightarrow> list_all normalized (mergeReviews env fetched cache st)"
  unfolding mergeReviews_def
  by (rule mergeReviews_on_normalized [OF ensureOriginalReviews_normalized])

lemma upsertCustomReview_fst: "fst (upsertCustomReview env r st) = normalizeReview env r"
  by (simp add: upsertCustomReview_def Let_def)


lemma upsertCustomReview_stored_normalized:
  "list_all normalized (getLocalData (reviews_custom (snd (upsertCustomReview env r st))))"
proof -
  have c: "\<And>x. x \<in> set (getCustomReviews env st) \<Longrightarrow> normalized x"
    using getCustomReviews_normalized [of env st] by (simp add: list_all_iff)
  have n: "normalized (normalizeReview env r)"
    by (rule normalizeReview_normalized)
  have "\<And>i x. x \<in> set ((getCustomReviews env st)[i := normalizeReview env r]) \<Longrightarrow> normalized x"
    using c n by (metis insert_iff set_update_subset_insert subsetD)
  then show ?thesis
    using c n
    by (auto simp: upsertCustomReview_def Let_def list_all_iff split: option.splits)
qed



























text \<open>
  Claim C10, as amended.  Every review that \<open>mergeReviews\<close>, \<open>loadReviews\<close> or
  \<open>getReviewsForBusiness\<close> returns, and every review that \<open>addReview\<close>, \<open>likeReview\<close> or
  \<open>commentOnReview\<close> produces, has a number as likes, an array as comments and a truthy
  image, which is a non-empty string whenever it is a string; the cache keeps the
  invariant.
\<close>

theorem review_results_normalized:
  assumes "cache_inv cache"
  shows "list_all normalized (mergeReviews env fetched cache st)
   \<and> list_all normalized (loadReviews env fetched cache st)
   \<and> list_all normalized (getReviewsForBusiness env fetched cache st businessId)
   \<and> normalized (fst (addReview env businessId obj st))
   \<and> (case fst (likeReview env fetched cache rid st) of Inr r \<Rightarrow> normalized r | Inl e \<Rightarrow> True)
   \<and> (case fst (commentOnReview env fetched cache rid txt st) of Inr r \<Rightarrow> normalized r | Inl e \<Rightarrow> True)
   \<and> list_all normalized (getUserReviews env st)
   \<and> list_all normalized (getLocalData (reviews_custom (snd (addReview env businessId obj st))))
   \<and> cache_inv (Some (ensureOriginalReviews env fetched cache))"
proof -
  have u: "list_all normalized (getUserReviews env st)"
    by (simp add: getUserReviews_def getCustomReviews_normalized)
  have w: "list_all normalized (getLocalData (reviews_custom (snd (addReview env businessId obj st))))"
    unfolding addReview_def Let_def by (rule upsertCustomReview_stored_normalized)
  have m: "list_all normalized (mergeReviews env fetched cache st)"
    by (rule mergeReviews_normalized [OF assms])
  have l: "list_all normalized (loadReviews env fetched cache st)"
    using m by (simp add: loadReviews_def Let_def list_all_iff)
  have g: "list_all normalized (getReviewsForBusiness env fetched cache st businessId)"
    using m by (simp add: getReviewsForBusiness_def Let_def list_all_iff)
  have a: "normalized (fst (addReview env businessId obj st))"
    by (simp add: addReview_def Let_def upsertCustomReview_fst normalizeReview_normalized)
  have k: "case fst (likeReview env fetched cache rid st) of Inr r \<Rightarrow> normalized r | Inl e \<Rightarrow> True"
    by (simp add: likeReview_def Let_def split_beta upsertCustomReview_fst
          normalizeReview_normalized split: option.splits)
  have c: "case fst (commentOnReview env fetched cache rid txt st) of Inr r \<Rightarrow> normalized r | Inl e \<Rightarrow> True"
    by (simp add: commentOnReview_def Let_def split_beta upsertCustomReview_fst
          normalizeReview_normalized split: option.splits)
  have i: "cache_inv (Some (ensureOriginalReviews env fetched cache))"
    using ensureOriginalReviews_normalized [OF assms] by (simp add: cache_inv_def)
  from m l g a k c u w i show ?thesis by blast
qed

text \<open>A stored review with the image 42 keeps it: the image of the merged review is no string.\<close>

theorem normalized_image_counterexample:
  "map r_image (mergeReviews ex_env (Some [numeric_image_review]) None empty_storage) = [JNum 42]
   \<and> \<not> is_nonempty_string (JNum 42)"
  by (simp add: mergeReviews_def mergeReviews_on_def ensureOriginalReviews_def
      getCustomReviews_def normalizeReview_def js_or_def customById_def is_nonempty_string_def
      numeric_image_review_def ex_defs)

theorem review_results_normalized_witness:
  "normalized (fst (addReview ex_env (IdNum 1) ex_form empty_storage))
   \<and> r_image (fst (addReview ex_env (IdNum 1) ex_form empty_storage)) = JStr placeholder
   \<and> mergeReviews ex_env (Some [(ex_review 1 2)\<lparr> r_likes := JUndefined, r_comments := JNum 3 \<rparr>])
        None empty_storage
      = [(ex_review 1 0)\<lparr> r_comments := JArr [] \<rparr>]"
proof -
  have h: "cache_inv None" by (simp add: cache_inv_def)
  show ?thesis
    using review_results_normalized [OF h, of ex_env None empty_storage "IdNum 1" ex_form]
    by (simp add: addReview_def upsertCustomReview_def mergeReviews_def mergeReviews_on_def
        ensureOriginalReviews_def getCustomReviews_def normalizeReview_def number_or_zero_def
        isArray_def js_or_def customById_def ex_form_def Let_def ex_defs)
qed

end
